theory Spec2Isabelle
  imports Complex_Main "HOL-Library.Multiset"
begin

section \<open>Cards\<close>

text \<open>
  \<^verbatim>\<open>class Card\<close> of \<^verbatim>\<open>blackjack_sim2.py\<close>: a suit, a rank, and the value looked up in
  \<^verbatim>\<open>Card.VALUES\<close> when the card is built. The ranks are the thirteen tokens of
  \<^verbatim>\<open>Card.RANKS\<close>; \<open>str(card)\<close> is the rank token.
\<close>

datatype suit = Hearts | Diamonds | Clubs | Spades

datatype rank = R2 | R3 | R4 | R5 | R6 | R7 | R8 | R9 | R10 | RJ | RQ | RK | RA

definition SUITS :: "suit list" where
  "SUITS = [Hearts, Diamonds, Clubs, Spades]"

definition RANKS :: "rank list" where
  "RANKS = [R2, R3, R4, R5, R6, R7, R8, R9, R10, RJ, RQ, RK, RA]"

fun VALUES :: "rank \<Rightarrow> int" where
  "VALUES R2 = 2"
| "VALUES R3 = 3"
| "VALUES R4 = 4"
| "VALUES R5 = 5"
| "VALUES R6 = 6"
| "VALUES R7 = 7"
| "VALUES R8 = 8"
| "VALUES R9 = 9"
| "VALUES R10 = 10"
| "VALUES RJ = 10"
| "VALUES RQ = 10"
| "VALUES RK = 10"
| "VALUES RA = 11"

fun rank_str :: "rank \<Rightarrow> string" where
  "rank_str R2 = ''2''"
| "rank_str R3 = ''3''"
| "rank_str R4 = ''4''"
| "rank_str R5 = ''5''"
| "rank_str R6 = ''6''"
| "rank_str R7 = ''7''"
| "rank_str R8 = ''8''"
| "rank_str R9 = ''9''"
| "rank_str R10 = ''10''"
| "rank_str RJ = ''J''"
| "rank_str RQ = ''Q''"
| "rank_str RK = ''K''"
| "rank_str RA = ''A''"

datatype card = Card (suit: suit) (rank: rank)

definition card_value :: "card \<Rightarrow> int" where
  "card_value c = VALUES (rank c)"

definition card_str :: "card \<Rightarrow> string" where
  "card_str c = rank_str (rank c)"

section \<open>Hands\<close>

text \<open>
  \<^verbatim>\<open>class Hand\<close> has the single field \<^verbatim>\<open>cards\<close>, so a hand is the list of its cards and
  \<^verbatim>\<open>add_card\<close> appends at the end.
\<close>

type_synonym hand = "card list"

definition add_card :: "hand \<Rightarrow> card \<Rightarrow> hand" where
  "add_card h c = h @ [c]"

definition raw_sum :: "hand \<Rightarrow> int" where
  "raw_sum h = sum_list (map card_value h)"

definition count_aces :: "hand \<Rightarrow> int" where
  "count_aces h = sum_list (map (\<lambda>c. 1) (filter (\<lambda>c. rank c = RA) h))"

text \<open>
  The loop of \<^verbatim>\<open>get_value\<close>,
  \<^verbatim>\<open>while value > 21 and num_aces: value -= 10; num_aces -= 1\<close>,
  on its two variables. It returns both of them as they are when the loop ends;
  \<^verbatim>\<open>get_value\<close> returns the first.
\<close>

function ace_loop :: "int \<Rightarrow> int \<Rightarrow> int \<times> int" where
  "ace_loop v num_aces =
     (if v > 21 \<and> num_aces \<noteq> 0 then ace_loop (v - 10) (num_aces - 1) else (v, num_aces))"
  by pat_completeness auto
termination
  by (relation "measure (\<lambda>(v, n). nat (v - 21))") auto

declare ace_loop.simps [simp del]

definition get_value :: "hand \<Rightarrow> int" where
  "get_value h = fst (ace_loop (raw_sum h) (count_aces h))"

fun join_dash :: "string list \<Rightarrow> string" where
  "join_dash [] = []"
| "join_dash [s] = s"
| "join_dash (s # t # ss) = s @ ''-'' @ join_dash (t # ss)"

definition hand_str :: "hand \<Rightarrow> string" where
  "hand_str h = join_dash (map card_str h)"

definition is_blackjack :: "hand \<Rightarrow> bool" where
  "is_blackjack h \<longleftrightarrow> length h = 2 \<and> get_value h = 21"

text \<open>
  \<^verbatim>\<open>is_soft\<close> recomputes the sum of the card values and the number of aces and compares
  the sum itself, before any ace is demoted, with 21.
\<close>

definition is_soft :: "hand \<Rightarrow> bool" where
  "is_soft h \<longleftrightarrow> count_aces h > 0 \<and> raw_sum h \<le> 21"

text \<open>
  The soft predicate in the words of the specification: at least one ace is still counted
  as 11 in the current total, that is, the ace counter of the demotion loop has not reached
  zero when the loop ends, and that total is at most 21.
\<close>

definition soft_spec :: "hand \<Rightarrow> bool" where
  "soft_spec h \<longleftrightarrow> snd (ace_loop (raw_sum h) (count_aces h)) > 0 \<and> get_value h \<le> 21"

text \<open>The total with every ace counted as 1: a lower bound of \<open>get_value\<close>.\<close>

definition hard_total :: "hand \<Rightarrow> int" where
  "hard_total h = raw_sum h - 10 * count_aces h"

section \<open>The shoe\<close>

text \<open>
  \<^verbatim>\<open>class Deck\<close>: the list \<^verbatim>\<open>cards\<close> (dealt from its end by \<^verbatim>\<open>pop()\<close>) and \<^verbatim>\<open>num_decks\<close>.
  \<^verbatim>\<open>random.shuffle\<close> is the only source of randomness of the program. It is modelled by a
  parameter \<open>sh\<close>: \<open>sh n xs\<close> is the order in which the \<open>n\<close>-th call of \<^verbatim>\<open>shuffle\<close> leaves
  the list \<open>xs\<close>. The number of calls made so far is the field \<open>rng\<close>, which stands for the
  state of Python's global generator. A theorem that holds for every \<open>sh\<close> holds for
  every outcome of the shuffles.
\<close>

type_synonym shuffle_fn = "nat \<Rightarrow> card list \<Rightarrow> card list"

record deck =
  cards :: "card list"
  num_decks :: nat
  rng :: nat

datatype error = IndexError

definition one_deck :: "card list" where
  "one_deck = concat (map (\<lambda>s. map (\<lambda>r. Card s r) RANKS) SUITS)"

text \<open>The list \<^verbatim>\<open>build\<close> makes: \<open>n\<close> decks, one after the other.\<close>

definition full_shoe :: "nat \<Rightarrow> card list" where
  "full_shoe n = concat (replicate n one_deck)"

definition build :: "deck \<Rightarrow> deck" where
  "build d = d\<lparr>cards := full_shoe (num_decks d)\<rparr>"

definition shuffle :: "shuffle_fn \<Rightarrow> deck \<Rightarrow> deck" where
  "shuffle sh d = d\<lparr>cards := sh (rng d) (cards d), rng := Suc (rng d)\<rparr>"

text \<open>
  \<^verbatim>\<open>deal\<close>: an empty shoe is rebuilt and shuffled first; \<^verbatim>\<open>pop()\<close> then removes and returns
  the last card, and raises \<^verbatim>\<open>IndexError\<close> on a list that is still empty.
\<close>

definition deal :: "shuffle_fn \<Rightarrow> deck \<Rightarrow> error + (card \<times> deck)" where
  "deal sh d =
     (let d1 = (if length (cards d) = 0 then shuffle sh (build d) else d)
      in if cards d1 = [] then Inl IndexError
         else Inr (last (cards d1), d1\<lparr>cards := butlast (cards d1)\<rparr>))"

section \<open>The dealer\<close>

lemma ace_loop_fst_ge:
  "0 \<le> n \<Longrightarrow> v - 10 * n \<le> fst (ace_loop v n)"
proof (induction v n rule: ace_loop.induct)
  case (1 v n)
  show ?case
  proof (cases "v > 21 \<and> n \<noteq> 0")
    case True
    then have unfold: "ace_loop v n = ace_loop (v - 10) (n - 1)"
      by (subst ace_loop.simps) simp
    from True "1.prems" have "0 \<le> n - 1" by simp
    with "1.IH" True have "v - 10 - 10 * (n - 1) \<le> fst (ace_loop (v - 10) (n - 1))"
      by simp
    with unfold show ?thesis by simp
  next
    case False
    then have "ace_loop v n = (v, n)"
      by (subst ace_loop.simps) auto
    with "1.prems" show ?thesis by simp
  qed
qed

lemma count_aces_nonneg: "0 \<le> count_aces h"
  by (induction h) (auto simp: count_aces_def)

lemma hard_total_le_get_value: "hard_total h \<le> get_value h"
  unfolding hard_total_def get_value_def
  by (rule ace_loop_fst_ge) (rule count_aces_nonneg)

lemma hard_total_snoc: "hard_total h < hard_total (h @ [c])"
  by (cases c, cases "rank c") (auto simp: hard_total_def raw_sum_def count_aces_def card_value_def)

text \<open>
  The loop of \<^verbatim>\<open>play_dealer\<close> on the copy \<^verbatim>\<open>dealer\<close> of the dealer's hand, the shoe and the
  list \<^verbatim>\<open>dealer_cards\<close>. Every card adds at least 1 to the total that counts aces as 1,
  and the loop runs only while that total is at most 17, so it ends.
\<close>

function dealer_loop ::
  "shuffle_fn \<Rightarrow> hand \<Rightarrow> deck \<Rightarrow> card list \<Rightarrow> error + (hand \<times> card list \<times> deck)" where
  "dealer_loop sh dealer d dealer_cards =
     (if get_value dealer < 17 \<or> (get_value dealer = 17 \<and> is_soft dealer) then
        (case deal sh d of
           Inl e \<Rightarrow> Inl e
         | Inr (c, d') \<Rightarrow> dealer_loop sh (add_card dealer c) d' (dealer_cards @ [c]))
      else Inr (dealer, dealer_cards, d))"
  by pat_completeness auto
termination
proof (relation "measure (\<lambda>(sh, dealer, d, dealer_cards). nat (18 - hard_total dealer))")
  show "wf (measure (\<lambda>(sh, dealer, d, dealer_cards). nat (18 - hard_total dealer)))"
    by simp
next
  fix sh :: shuffle_fn and dealer :: hand and d :: deck and dealer_cards :: "card list"
    and x :: "card \<times> deck" and c :: card and d' :: deck
  assume go: "get_value dealer < 17 \<or> get_value dealer = 17 \<and> is_soft dealer"
  from go have "get_value dealer \<le> 17" by auto
  with hard_total_le_get_value [of dealer] have "hard_total dealer \<le> 17" by simp
  moreover have "hard_total dealer < hard_total (dealer @ [c])"
    by (rule hard_total_snoc)
  ultimately show "((sh, add_card dealer c, d', dealer_cards @ [c]), (sh, dealer, d, dealer_cards))
      \<in> measure (\<lambda>(sh, dealer, d, dealer_cards). nat (18 - hard_total dealer))"
    by (simp add: add_card_def)
qed

declare dealer_loop.simps [simp del]

text \<open>
  \<^verbatim>\<open>play_dealer\<close> copies the cards of the dealer's hand into a new hand, runs the loop on
  the copy and returns the copy's string, its value and the cards drawn. The model also
  returns the shoe, which the source mutates in place.
\<close>

definition play_dealer ::
  "shuffle_fn \<Rightarrow> hand \<Rightarrow> deck \<Rightarrow> error + ((string \<times> int \<times> card list) \<times> deck)" where
  "play_dealer sh dealer_hand d =
     (case dealer_loop sh (foldl add_card [] dealer_hand) d [] of
        Inl e \<Rightarrow> Inl e
      | Inr (dealer, dealer_cards, d') \<Rightarrow>
          Inr ((hand_str dealer, get_value dealer, dealer_cards), d'))"

section \<open>Playing strategies\<close>

text \<open>
  A strategy returns one of the action strings \<^verbatim>\<open>'hit'\<close>, \<^verbatim>\<open>'stand'\<close>, \<^verbatim>\<open>'double'\<close>,
  \<^verbatim>\<open>'split'\<close>, \<^verbatim>\<open>'insurance'\<close>.
\<close>

datatype action = Hit | Stand | Double | Split | Insurance

text \<open>
  The keyword arguments that reach a strategy function, by the keys the strategies of the
  file read; \<open>None\<close> is a key that is absent from the call, so that the default of the
  strategy's signature (or of \<^verbatim>\<open>kwargs.get\<close>) applies.
\<close>

record kwargs =
  kw_can_double :: "bool option"
  kw_can_split :: "bool option"
  kw_running_count :: "int option"
  kw_threshold :: "int option"
  kw_decks_remaining :: "rat option"
  kw_num_decks :: "int option"

type_synonym strategy_func = "hand \<Rightarrow> card \<Rightarrow> kwargs \<Rightarrow> action"

definition get_default :: "'a option \<Rightarrow> 'a \<Rightarrow> 'a" where
  "get_default v dflt = (case v of None \<Rightarrow> dflt | Some x \<Rightarrow> x)"

definition strategy_mimic_dealer :: strategy_func where
  "strategy_mimic_dealer player_hand dealer_upcard kw =
     (if get_value player_hand < 17 then Hit else Stand)"

definition strategy_fixed_threshold :: strategy_func where
  "strategy_fixed_threshold player_hand dealer_upcard kw =
     (let threshold = get_default (kw_threshold kw) 15
      in if get_value player_hand < threshold then Hit else Stand)"

definition strategy_dealer_weakness :: strategy_func where
  "strategy_dealer_weakness player_hand dealer_upcard kw =
     (if rank dealer_upcard \<in> set [R2, R3, R4, R5, R6] \<and> get_value player_hand \<ge> 12 then Stand
      else if get_value player_hand < 17 then Hit else Stand)"

text \<open>
  \<^verbatim>\<open>strategy_basic\<close>, block by block. Each block returns \<open>Some\<close> action or falls through
  (\<open>None\<close>) to the next one, as the chain of \<^verbatim>\<open>if ...: return\<close> statements does.
\<close>

definition basic_pairs :: "rank \<Rightarrow> rank \<Rightarrow> bool \<Rightarrow> action option" where
  "basic_pairs pair up can_double =
     (if pair \<in> set [RA, R8] then Some Split
      else if pair \<in> set [R2, R3, R7] \<and> up \<in> set [R2, R3, R4, R5, R6, R7] then Some Split
      else if pair = R6 \<and> up \<in> set [R2, R3, R4, R5, R6] then Some Split
      else if pair = R9 \<and> up \<in> set [R2, R3, R4, R5, R6, R8, R9] then Some Split
      else if pair = R4 \<and> up \<in> set [R5, R6] then Some Split
      else if pair = R5 \<and> up \<in> set [R2, R3, R4, R5, R6, R7, R8, R9] then
        Some (if can_double then Double else Hit)
      else if pair = R10 then Some Stand
      else None)"

definition first_other :: "rank list \<Rightarrow> rank option" where
  "first_other ranks =
     (let others = filter (\<lambda>r. r \<noteq> RA) ranks
      in if others \<noteq> [] then Some (others ! 0) else None)"

definition basic_double :: "rank list \<Rightarrow> int \<Rightarrow> rank \<Rightarrow> action option" where
  "basic_double ranks val up =
     (let other = first_other ranks;
          soft_double =
            (if RA \<in> set ranks \<and> other \<noteq> None then
               (if the other \<in> set [R2, R3] \<and> up \<in> set [R5, R6] then Some Double
                else if the other \<in> set [R4, R5] \<and> up \<in> set [R4, R5, R6] then Some Double
                else if the other = R6 \<and> up \<in> set [R3, R4, R5, R6] then Some Double
                else if the other = R7 \<and> up \<in> set [R3, R4, R5, R6] then Some Double
                else None)
             else None)
      in if soft_double \<noteq> None then soft_double
         else if val = 9 \<and> up \<in> set [R3, R4, R5, R6] then Some Double
         else if val = 10 \<and> up \<in> set [R2, R3, R4, R5, R6, R7, R8, R9] then Some Double
         else if val = 11 \<and> up \<in> set [R2, R3, R4, R5, R6, R7, R8, R9, R10] then Some Double
         else None)"

definition basic_soft :: "rank list \<Rightarrow> rank \<Rightarrow> action" where
  "basic_soft ranks up =
     (case first_other ranks of
        Some other \<Rightarrow>
          (if other \<in> set [R8, R9, R10] then Stand
           else if other = R7 then (if up \<in> set [R2, R7, R8] then Stand else Hit)
           else if other = R6 then (if up \<in> set [R2, R3, R4, R5, R6] then Stand else Hit)
           else if other \<in> set [R2, R3, R4, R5] then
             (if up \<in> set [R4, R5, R6] then Stand else Hit)
           else if other \<in> set [R2, R3] \<and> up \<in> set [R5, R6] then Stand
           else Hit)
      | None \<Rightarrow> Hit)"

definition basic_hard :: "int \<Rightarrow> rank \<Rightarrow> action" where
  "basic_hard val up =
     (if val \<le> 11 then Hit
      else if val = 12 then (if up \<in> set [R4, R5, R6] then Stand else Hit)
      else if 13 \<le> val \<and> val \<le> 16 then
        (if up \<in> set [R2, R3, R4, R5, R6] then Stand else Hit)
      else Stand)"

definition strategy_basic :: strategy_func where
  "strategy_basic player_hand dealer_upcard kw =
     (let can_double = get_default (kw_can_double kw) False;
          can_split = get_default (kw_can_split kw) False;
          ranks = map rank player_hand;
          val = get_value player_hand;
          up = rank dealer_upcard;
          pairs = (if can_split \<and> length player_hand = 2 \<and> ranks ! 0 = ranks ! 1
                   then basic_pairs (ranks ! 0) up can_double else None);
          doubling = (if can_double \<and> length player_hand = 2
                      then basic_double ranks val up else None)
      in if pairs \<noteq> None then the pairs
         else if doubling \<noteq> None then the doubling
         else if RA \<in> set ranks \<and> length player_hand = 2 then basic_soft ranks up
         else basic_hard val up)"

text \<open>
  \<^verbatim>\<open>strategy_card_counter\<close>. Its own keyword parameter is \<^verbatim>\<open>running_count=0\<close>; everything
  else lands in \<^verbatim>\<open>**kwargs\<close>, from which it reads \<^verbatim>\<open>decks_remaining\<close> with default 1 and
  which it passes on to \<^verbatim>\<open>strategy_basic\<close>. The division is Python's float division,
  taken here in the rationals.
\<close>

definition card_counter_true_count :: "kwargs \<Rightarrow> rat" where
  "card_counter_true_count kw =
     (let running_count = get_default (kw_running_count kw) 0;
          decks_remaining = max (get_default (kw_decks_remaining kw) 1) 1
      in of_int running_count / decks_remaining)"

definition strategy_card_counter :: strategy_func where
  "strategy_card_counter player_hand dealer_upcard kw =
     (let true_count = card_counter_true_count kw;
          val = get_value player_hand;
          up = rank dealer_upcard
      in if up = RA \<and> true_count \<ge> 3 then Insurance
         else if val = 16 \<and> up = R10 \<and> true_count \<ge> 0 then Stand
         else if val = 15 \<and> up = R10 \<and> true_count \<ge> 4 then Stand
         else if val = 13 \<and> up = R2 \<and> true_count \<le> - 1 then Hit
         else if val = 12 \<and> up = R3 \<and> true_count \<le> 0 then Hit
         else if val = 12 \<and> up = R2 \<and> true_count \<ge> 3 then Stand
         else strategy_basic player_hand dealer_upcard (kw\<lparr>kw_running_count := None\<rparr>))"

section \<open>One round\<close>

text \<open>
  \<^verbatim>\<open>play_round(deck, strategy_func, betting_amount=10, betting_strategy=None,
  running_count=0, **strategy_args)\<close>. The dictionary \<^verbatim>\<open>strategy_args\<close> collects the keyword
  arguments of the call that are not parameters of \<^verbatim>\<open>play_round\<close> itself, so it never
  holds the key \<^verbatim>\<open>running_count\<close>: a keyword of that name is bound to the parameter. The
  record below has the keys a caller can put there that a strategy reads.
\<close>

record strategy_args =
  sa_threshold :: "int option"
  sa_decks_remaining :: "rat option"
  sa_num_decks :: "int option"

text \<open>
  The keyword arguments of a call \<^verbatim>\<open>strategy_func(hand, upcard, ..., **strategy_args)\<close> inside
  the round, where \<open>...\<close> is \<^verbatim>\<open>can_split=True\<close>, \<^verbatim>\<open>can_double=True\<close> or nothing.
\<close>

definition call_kwargs :: "strategy_args \<Rightarrow> bool option \<Rightarrow> bool option \<Rightarrow> kwargs" where
  "call_kwargs strategy_args can_double can_split =
     \<lparr>kw_can_double = can_double, kw_can_split = can_split, kw_running_count = None,
      kw_threshold = sa_threshold strategy_args,
      kw_decks_remaining = sa_decks_remaining strategy_args,
      kw_num_decks = sa_num_decks strategy_args\<rparr>"

text \<open>
  The comparison that ends \<^verbatim>\<open>play_single_hand\<close> after the dealer's turn, with the stake
  \<open>stake\<close> (the bet, or twice the bet after a double).
\<close>

definition settle :: "int \<Rightarrow> int \<Rightarrow> int \<Rightarrow> int" where
  "settle player_val dealer_val stake =
     (if dealer_val > 21 \<or> player_val > dealer_val then stake
      else if player_val < dealer_val then - stake
      else 0)"

text \<open>
  The state a round threads through its nested functions: the shoe and the list
  \<^verbatim>\<open>cards_seen\<close> (a \<^verbatim>\<open>nonlocal\<close> of \<^verbatim>\<open>play_single_hand\<close>).
\<close>

type_synonym round_st = "deck \<times> card list"

text \<open>
  The \<^verbatim>\<open>while True\<close> loop of \<^verbatim>\<open>play_single_hand\<close>. It returns the hand as the loop leaves
  it and whether it left by the bust \<^verbatim>\<open>return\<close> (\<open>True\<close>) or by \<^verbatim>\<open>break\<close> (\<open>False\<close>). It
  recurses only on a hand whose value is at most 21, and every card adds at least 1 to
  the total that counts aces as 1, so it ends for every strategy.
\<close>

function hit_loop ::
  "shuffle_fn \<Rightarrow> strategy_func \<Rightarrow> strategy_args \<Rightarrow> card \<Rightarrow> hand \<Rightarrow> round_st
     \<Rightarrow> error + (hand \<times> bool \<times> round_st)" where
  "hit_loop sh strategy_func strategy_args upcard hnd st =
     (if strategy_func hnd upcard (call_kwargs strategy_args None None) = Hit then
        (case deal sh (fst st) of
           Inl e \<Rightarrow> Inl e
         | Inr (c, d') \<Rightarrow>
             if get_value (add_card hnd c) > 21
             then Inr (add_card hnd c, True, (d', snd st @ [c]))
             else hit_loop sh strategy_func strategy_args upcard (add_card hnd c)
                    (d', snd st @ [c]))
      else Inr (hnd, False, st))"
  by pat_completeness auto
termination
proof (relation "measure (\<lambda>(sh, f, a, up, hnd, st). nat (22 - hard_total hnd))")
  show "wf (measure (\<lambda>(sh, f, a, up, hnd, st). nat (22 - hard_total hnd)))"
    by simp
next
  fix sh :: shuffle_fn and strategy_func :: strategy_func and strategy_args :: strategy_args
    and upcard :: card and hnd :: hand and st :: round_st and x :: "card \<times> deck"
    and c :: card and d' :: deck
  assume "\<not> 21 < get_value (add_card hnd c)"
  with hard_total_le_get_value [of "add_card hnd c"] have "hard_total (add_card hnd c) \<le> 21"
    by simp
  moreover have "hard_total hnd < hard_total (add_card hnd c)"
    unfolding add_card_def by (rule hard_total_snoc)
  ultimately show "((sh, strategy_func, strategy_args, upcard, add_card hnd c, d', snd st @ [c]),
      (sh, strategy_func, strategy_args, upcard, hnd, st))
      \<in> measure (\<lambda>(sh, f, a, up, hnd, st). nat (22 - hard_total hnd))"
    by simp
qed

declare hit_loop.simps [simp del]

text \<open>
  The part of \<^verbatim>\<open>play_single_hand\<close> from \<^verbatim>\<open># Dealer's turn\<close> on: the dealer is played by
  \<^verbatim>\<open>play_dealer()\<close>, the cards drawn are added to \<^verbatim>\<open>cards_seen\<close>, and the hand is compared
  with the value that this call of \<^verbatim>\<open>play_dealer\<close> returned.
\<close>

definition dealers_turn ::
  "shuffle_fn \<Rightarrow> hand \<Rightarrow> hand \<Rightarrow> int \<Rightarrow> round_st
     \<Rightarrow> error + ((string \<times> int) \<times> hand \<times> round_st)" where
  "dealers_turn sh dealer_hand hnd stake st =
     (case play_dealer sh dealer_hand (fst st) of
        Inl e \<Rightarrow> Inl e
      | Inr ((dealer_final, dealer_val, dealer_cards), d') \<Rightarrow>
          Inr ((hand_str hnd, settle (get_value hnd) dealer_val stake), hnd,
               (d', snd st @ dealer_cards)))"

text \<open>
  \<^verbatim>\<open>play_single_hand(hand, bet, allow_double, allow_split)\<close>, a closure over the shoe,
  \<^verbatim>\<open>cards_seen\<close>, the dealer's hand, the strategy and its arguments. The source mutates
  the hand object it is given (a hit or a double appends to it), and \<^verbatim>\<open>play_round\<close>
  reads that object afterwards, so the model returns the hand as well: the result is
  the returned pair (string, profit), the hand object's cards at the end, and the state.
  After a split the two new hands are played and the given hand is left as it was.
\<close>

function play_single_hand ::
  "shuffle_fn \<Rightarrow> strategy_func \<Rightarrow> strategy_args \<Rightarrow> hand \<Rightarrow> hand \<Rightarrow> int \<Rightarrow> bool \<Rightarrow> bool
     \<Rightarrow> round_st \<Rightarrow> error + ((string \<times> int) \<times> hand \<times> round_st)" where
  "play_single_hand sh strategy_func strategy_args dealer_hand hnd bet allow_double allow_split st =
     (if allow_split \<and> length hnd = 2 \<and> rank (hnd ! 0) = rank (hnd ! 1) \<and>
         strategy_func hnd (dealer_hand ! 0) (call_kwargs strategy_args None (Some True)) = Split
      then
        (case deal sh (fst st) of
           Inl e \<Rightarrow> Inl e
         | Inr (c1, d1) \<Rightarrow>
        (case deal sh d1 of
           Inl e \<Rightarrow> Inl e
         | Inr (c2, d2) \<Rightarrow>
        (case play_single_hand sh strategy_func strategy_args dealer_hand
                (add_card (add_card [] (hnd ! 0)) c1) bet True False (d2, snd st @ [c1, c2]) of
           Inl e \<Rightarrow> Inl e
         | Inr ((res1, prof1), hand1, st1) \<Rightarrow>
        (case play_single_hand sh strategy_func strategy_args dealer_hand
                (add_card (add_card [] (hnd ! 1)) c2) bet True False st1 of
           Inl e \<Rightarrow> Inl e
         | Inr ((res2, prof2), hand2, st2) \<Rightarrow>
             Inr ((hand_str hand1 @ ''|'' @ hand_str hand2, prof1 + prof2), hnd, st2)))))
      else if allow_double \<and> length hnd = 2 \<and>
         strategy_func hnd (dealer_hand ! 0) (call_kwargs strategy_args (Some True) None) = Double
      then
        (case deal sh (fst st) of
           Inl e \<Rightarrow> Inl e
         | Inr (c, d') \<Rightarrow>
             if get_value (add_card hnd c) > 21
             then Inr ((hand_str (add_card hnd c), - 2 * bet), add_card hnd c, (d', snd st @ [c]))
             else dealers_turn sh dealer_hand (add_card hnd c) (2 * bet) (d', snd st @ [c]))
      else
        (case hit_loop sh strategy_func strategy_args (dealer_hand ! 0) hnd st of
           Inl e \<Rightarrow> Inl e
         | Inr (hnd', busted, st') \<Rightarrow>
             if busted then Inr ((hand_str hnd', - bet), hnd', st')
             else dealers_turn sh dealer_hand hnd' bet st'))"
  by pat_completeness auto
termination
  by (relation "measure (\<lambda>(sh, f, a, dh, hnd, bet, allow_double, allow_split, st).
        if allow_split then 1 else 0)") auto

declare play_single_hand.simps [simp del]

text \<open>
  The dictionary \<^verbatim>\<open>play_round\<close> returns. The driver later adds the key \<^verbatim>\<open>bet\<close>.
\<close>

datatype result_tag = Win | Loss | Push

datatype betting = Betting_Flat | Betting_Martingale

record round_result =
  player_hand :: string
  player_final_value :: int
  dealer_hand :: string
  dealer_final_value :: int
  result :: result_tag
  profit :: rat
  cards_seen :: "card list"

text \<open>The four initial deals: player, dealer, player, dealer.\<close>

definition initial_deal :: "shuffle_fn \<Rightarrow> deck \<Rightarrow> error + (hand \<times> hand \<times> deck)" where
  "initial_deal sh d =
     (case deal sh d of Inl e \<Rightarrow> Inl e | Inr (c1, d1) \<Rightarrow>
     (case deal sh d1 of Inl e \<Rightarrow> Inl e | Inr (c2, d2) \<Rightarrow>
     (case deal sh d2 of Inl e \<Rightarrow> Inl e | Inr (c3, d3) \<Rightarrow>
     (case deal sh d3 of Inl e \<Rightarrow> Inl e | Inr (c4, d4) \<Rightarrow>
        Inr (add_card (add_card [] c1) c3, add_card (add_card [] c2) c4, d4)))))"

text \<open>
  \<^verbatim>\<open>play_round\<close>. The parameters \<^verbatim>\<open>betting_strategy\<close> and \<^verbatim>\<open>running_count\<close> are never read
  in its body. The bet is an integer (every bet of the driver is one), and
  \<^verbatim>\<open>1.5 * betting_amount\<close> is the rational \<open>3/2\<close> times the bet, which is what the float
  product is for an integer below \<open>2^52\<close>. In the three blackjack branches
  \<^verbatim>\<open>player_final\<close> is not bound and the dictionary takes \<^verbatim>\<open>str(player_hand)\<close>.
\<close>

definition play_round ::
  "shuffle_fn \<Rightarrow> strategy_func \<Rightarrow> int \<Rightarrow> betting option \<Rightarrow> int \<Rightarrow> strategy_args \<Rightarrow> deck
     \<Rightarrow> error + (round_result \<times> deck)" where
  "play_round sh strategy_func betting_amount betting_strategy running_count strategy_args d =
     (case initial_deal sh d of
        Inl e \<Rightarrow> Inl e
      | Inr (phand, dhand, d4) \<Rightarrow>
          (let seen0 = phand @ dhand;
               player_blackjack = is_blackjack phand;
               dealer_blackjack = is_blackjack dhand;
               blackjack_result = (\<lambda>tag p.
                  Inr (\<lparr>player_hand = hand_str phand, player_final_value = get_value phand,
                        dealer_hand = hand_str dhand, dealer_final_value = get_value dhand,
                        result = tag, profit = p, cards_seen = seen0\<rparr>, d4))
           in if player_blackjack \<and> dealer_blackjack then blackjack_result Push 0
              else if player_blackjack then blackjack_result Win (3 / 2 * of_int betting_amount)
              else if dealer_blackjack then blackjack_result Loss (- of_int betting_amount)
              else
                (case play_single_hand sh strategy_func strategy_args dhand phand betting_amount
                        True True (d4, seen0) of
                   Inl e \<Rightarrow> Inl e
                 | Inr ((player_final, prof), phand', (d', seen')) \<Rightarrow>
                     Inr (\<lparr>player_hand = player_final, player_final_value = get_value phand',
                           dealer_hand = hand_str dhand, dealer_final_value = get_value dhand,
                           result = (if prof > 0 then Win else if prof < 0 then Loss else Push),
                           profit = of_int prof, cards_seen = seen'\<rparr>, d'))))"

section \<open>Betting, counting and the simulation driver\<close>

definition betting_flat :: "int \<Rightarrow> int" where
  "betting_flat base_bet = base_bet"

definition betting_martingale :: "int \<Rightarrow> result_tag option \<Rightarrow> int \<Rightarrow> int" where
  "betting_martingale base_bet last_result current_bet =
     (if last_result = Some Loss then current_bet * 2 else base_bet)"

definition update_count :: "int \<Rightarrow> card \<Rightarrow> int" where
  "update_count cnt c =
     (if rank c \<in> set [R2, R3, R4, R5, R6] then cnt + 1
      else if rank c \<in> set [R10, RJ, RQ, RK, RA] then cnt - 1
      else cnt)"

text \<open>
  The driver tells the strategies and the betting functions apart by comparing function
  objects (\<^verbatim>\<open>playing_strategy == strategy_card_counter\<close>). The model names the functions
  of the file by a tag.
\<close>

datatype strategy =
  Strategy_Mimic_Dealer | Strategy_Fixed_Threshold | Strategy_Dealer_Weakness
  | Strategy_Basic | Strategy_Card_Counter

fun strategy_fn :: "strategy \<Rightarrow> strategy_func" where
  "strategy_fn Strategy_Mimic_Dealer = strategy_mimic_dealer"
| "strategy_fn Strategy_Fixed_Threshold = strategy_fixed_threshold"
| "strategy_fn Strategy_Dealer_Weakness = strategy_dealer_weakness"
| "strategy_fn Strategy_Basic = strategy_basic"
| "strategy_fn Strategy_Card_Counter = strategy_card_counter"

text \<open>
  The true count of the driver, \<^verbatim>\<open>running_count / max(len(deck.cards) / 52, 1)\<close>, and its bet
  spread. Both divisions are float divisions in the source and exact here; the bet spread
  only compares the quotient with 1, 2, 3 and 4.
\<close>

definition driver_true_count :: "int \<Rightarrow> deck \<Rightarrow> rat" where
  "driver_true_count running_count d =
     (let decks_remaining = max (of_nat (length (cards d)) / 52) 1
      in of_int running_count / decks_remaining)"

definition counter_bet :: "rat \<Rightarrow> int" where
  "counter_bet true_count =
     (if true_count < 1 then 10
      else if true_count = 2 then 25
      else if true_count = 3 then 50
      else if true_count \<ge> 4 then 100
      else 10)"

text \<open>An entry of \<^verbatim>\<open>game_results\<close>: the dictionary of the round with the key \<^verbatim>\<open>bet\<close> added.\<close>

record game_record =
  round :: round_result
  bet :: int

text \<open>The variables of \<^verbatim>\<open>run_simulation\<close> that change from round to round.\<close>

record sim_state =
  sim_deck :: deck
  game_results :: "game_record list"
  running_count :: int
  last_result :: "result_tag option"
  current_bet :: int

text \<open>
  The first half of the loop body: the reshuffle policy and the bet. It returns the shoe,
  the running count, the bet and \<^verbatim>\<open>current_bet\<close> as they are just before \<^verbatim>\<open>play_round\<close>.
\<close>

definition prepare_round ::
  "shuffle_fn \<Rightarrow> strategy \<Rightarrow> betting \<Rightarrow> int \<Rightarrow> bool \<Rightarrow> sim_state \<Rightarrow> deck \<times> int \<times> int \<times> int" where
  "prepare_round sh playing_strategy betting_strategy base_bet reshuffle_each_hand s =
     (if playing_strategy = Strategy_Card_Counter then
        (let (d, rc) = (if length (cards (sim_deck s)) = 0
                        then (shuffle sh (build (sim_deck s)), 0)
                        else (sim_deck s, running_count s));
             true_count = driver_true_count rc d
         in (d, rc, counter_bet true_count, current_bet s))
      else
        (let (d, rc) = (if reshuffle_each_hand \<or> length (cards (sim_deck s)) < 52
                        then (shuffle sh (build (sim_deck s)), 0)
                        else (sim_deck s, running_count s))
         in if betting_strategy = Betting_Martingale
            then (let b = betting_martingale base_bet (last_result s) (current_bet s)
                  in (d, rc, b, b))
            else (d, rc, betting_flat base_bet, current_bet s)))"

text \<open>
  One iteration of the \<^verbatim>\<open>for\<close> loop. The driver copies \<^verbatim>\<open>strategy_args\<close>, adds the key
  \<^verbatim>\<open>running_count\<close> and calls \<^verbatim>\<open>play_round(deck, playing_strategy, betting_amount=bet,
  betting_strategy=betting_strategy, **round_args)\<close>; the keyword \<^verbatim>\<open>running_count\<close> is bound
  to the parameter of that name of \<^verbatim>\<open>play_round\<close>, and the other keys are its
  \<^verbatim>\<open>strategy_args\<close>. After the round the count is updated card by card over
  \<^verbatim>\<open>cards_seen\<close>.
\<close>

definition sim_round ::
  "shuffle_fn \<Rightarrow> strategy \<Rightarrow> betting \<Rightarrow> int \<Rightarrow> bool \<Rightarrow> strategy_args \<Rightarrow> sim_state
     \<Rightarrow> error + sim_state" where
  "sim_round sh playing_strategy betting_strategy base_bet reshuffle_each_hand strategy_args s =
     (case prepare_round sh playing_strategy betting_strategy base_bet reshuffle_each_hand s of
        (d, rc, b, cb) \<Rightarrow>
          (case play_round sh (strategy_fn playing_strategy) b (Some betting_strategy) rc strategy_args d of
             Inl e \<Rightarrow> Inl e
           | Inr (res, d') \<Rightarrow>
               Inr \<lparr>sim_deck = d',
                    game_results = game_results s @ [\<lparr>round = res, bet = b\<rparr>],
                    running_count = foldl update_count rc (cards_seen res),
                    last_result = Some (result res),
                    current_bet = cb\<rparr>))"




section \<open>Concrete shoes and evaluation\<close>

text \<open>
  A six-deck shoe in play (shuffled once) whose remaining cards come off in the order
  \<open>xs\<close>: \<^verbatim>\<open>pop()\<close> takes the last element of the list, so the list is \<open>xs\<close> reversed.
\<close>

definition shoe_dealing :: "card list \<Rightarrow> deck" where
  "shoe_dealing xs = \<lparr>cards = rev xs, num_decks = 6, rng = 1\<rparr>"

text \<open>A call with no strategy arguments, as the main block makes for every strategy but one.\<close>

definition no_args :: strategy_args where
  "no_args = \<lparr>sa_threshold = None, sa_decks_remaining = None, sa_num_decks = None\<rparr>"

text \<open>One outcome every shuffle can have: the list in reverse order.\<close>

definition sh_rev :: shuffle_fn where
  "sh_rev n xs = rev xs"

text \<open>
  The driver's variables at the top of its loop, with the running count \<open>rc\<close> and a shoe
  that will deal \<open>xs\<close>.
\<close>

definition counting_state :: "int \<Rightarrow> card list \<Rightarrow> sim_state" where
  "counting_state rc xs =
     \<lparr>sim_deck = shoe_dealing xs, game_results = [], running_count = rc,
      last_result = None, current_bet = 10\<rparr>"

text \<open>
  A shoe for a round with a split: the player gets a pair of eights against the dealer's
  ten and six, each eight then gets a ten, and a five and a ten follow.
\<close>

definition split_shoe :: deck where
  "split_shoe = shoe_dealing
     [Card Hearts R8, Card Clubs R10, Card Spades R8, Card Clubs R6,
      Card Hearts R10, Card Diamonds R10, Card Hearts R5, Card Spades R10]"

text \<open>
  Ten cards for a round in which the player holds 12 against a dealer's two, and ten for a
  round in which the player holds 16 against a dealer's ten.
\<close>

definition twelve_vs_two :: "card list" where
  "twelve_vs_two =
     [Card Hearts R10, Card Diamonds R2, Card Clubs R2, Card Spades R9, Card Hearts R5,
      Card Clubs RK, Card Clubs RQ, Card Clubs RJ, Card Clubs R10, Card Clubs RA]"

definition sixteen_vs_ten :: "card list" where
  "sixteen_vs_ten =
     [Card Hearts R10, Card Diamonds R10, Card Clubs R6, Card Spades R7, Card Hearts R2,
      Card Hearts R3, Card Hearts R4, Card Hearts R5, Card Hearts R6, Card Spades R2]"

lemmas hand_eval =
  get_value_def raw_sum_def count_aces_def card_value_def ace_loop.simps is_soft_def
  is_blackjack_def add_card_def hand_str_def card_str_def soft_spec_def

lemmas deck_eval = deal_def shuffle_def build_def shoe_dealing_def

lemmas strategy_eval =
  strategy_mimic_dealer_def strategy_fixed_threshold_def strategy_dealer_weakness_def
  strategy_basic_def basic_pairs_def basic_double_def basic_soft_def basic_hard_def
  first_other_def strategy_card_counter_def card_counter_true_count_def get_default_def
  call_kwargs_def no_args_def

lemmas round_eval =
  play_dealer_def dealer_loop.simps hit_loop.simps dealers_turn_def settle_def
  play_single_hand.simps initial_deal_def play_round_def

lemmas sim_eval =
  sim_round_def prepare_round_def driver_true_count_def counter_bet_def update_count_def
  betting_flat_def betting_martingale_def

section \<open>The soft predicate\<close>

lemma ace_loop_stop: "\<not> (v > 21 \<and> n \<noteq> 0) \<Longrightarrow> ace_loop v n = (v, n)"
  by (subst ace_loop.simps) auto

lemma ace_loop_step: "v > 21 \<Longrightarrow> n \<noteq> 0 \<Longrightarrow> ace_loop v n = ace_loop (v - 10) (n - 1)"
  by (subst ace_loop.simps) auto

lemma raw_sum_ge_aces: "11 * count_aces h \<le> raw_sum h"
proof (induction h)
  case Nil
  show ?case by (simp add: raw_sum_def count_aces_def)
next
  case (Cons c h)
  have "0 \<le> card_value c" by (cases c, cases "rank c") (auto simp: card_value_def)
  with Cons show ?case
    by (auto simp: raw_sum_def count_aces_def card_value_def)
qed

lemma is_soft_one_ace: "is_soft h \<Longrightarrow> count_aces h = 1"
  using raw_sum_ge_aces [of h] by (auto simp: is_soft_def)

text \<open>
  What \<^verbatim>\<open>is_soft\<close> computes: it agrees with the specification's soft predicate on the
  hands with exactly one ace and is false on every hand with two aces or more, whose
  undemoted sum is at least 22.
\<close>

lemma is_soft_characterised: "is_soft h \<longleftrightarrow> soft_spec h \<and> count_aces h = 1"
proof
  assume s: "is_soft h"
  then have one: "count_aces h = 1" by (rule is_soft_one_ace)
  from s have "raw_sum h \<le> 21" by (simp add: is_soft_def)
  then have "ace_loop (raw_sum h) 1 = (raw_sum h, 1)" by (simp add: ace_loop_stop)
  with one \<open>raw_sum h \<le> 21\<close> show "soft_spec h \<and> count_aces h = 1"
    by (simp add: soft_spec_def get_value_def)
next
  assume a: "soft_spec h \<and> count_aces h = 1"
  show "is_soft h"
  proof (rule ccontr)
    assume "\<not> is_soft h"
    with a have big: "raw_sum h > 21" by (simp add: is_soft_def)
    then have "ace_loop (raw_sum h) 1 = ace_loop (raw_sum h - 10) 0"
      by (simp add: ace_loop_step)
    also have "\<dots> = (raw_sum h - 10, 0)" by (simp add: ace_loop_stop)
    finally have "snd (ace_loop (raw_sum h) 1) = 0" by simp
    moreover from a have "count_aces h = 1" by blast
    moreover from a have "0 < snd (ace_loop (raw_sum h) (count_aces h))"
      unfolding soft_spec_def by blast
    ultimately show False by simp
  qed
qed

text \<open>
  C2 (the code departs from the claim). The claim: the soft predicate is true exactly when
  an ace is still counted as 11 in the demoted total and that total is at most 21; in
  particular a hand of two aces is soft. On the hand of two aces the demoted total is 12
  with one ace still counted as 11, so the hand is soft in the specification's sense, and
  \<^verbatim>\<open>is_soft\<close> returns false: it compares the undemoted sum 22 with 21.
\<close>

theorem two_aces_not_is_soft:
  "get_value [Card Spades RA, Card Hearts RA] = 12 \<and>
   soft_spec [Card Spades RA, Card Hearts RA] \<and>
   \<not> is_soft [Card Spades RA, Card Hearts RA]"
  by (simp add: hand_eval)

section \<open>The dealer's rule\<close>

text \<open>
  Where the loop of \<^verbatim>\<open>play_dealer\<close> stops, its condition is false: the value is at least
  17, and a hand of value 17 on which it stops is not soft in the sense of \<^verbatim>\<open>is_soft\<close>.
\<close>

lemma dealer_loop_stops:
  "dealer_loop sh h d dcs = Inr (h', dcs', d') \<Longrightarrow>
     \<not> (get_value h' < 17 \<or> (get_value h' = 17 \<and> is_soft h'))"
proof (induction sh h d dcs rule: dealer_loop.induct)
  case (1 sh dealer d dealer_cards)
  show ?case
  proof (cases "get_value dealer < 17 \<or> (get_value dealer = 17 \<and> is_soft dealer)")
    case True
    with "1.prems" obtain c d1 where dl: "deal sh d = Inr (c, d1)"
      and rec: "dealer_loop sh (add_card dealer c) d1 (dealer_cards @ [c]) = Inr (h', dcs', d')"
      by (subst (asm) dealer_loop.simps) (auto split: sum.splits)
    from "1.IH" [OF True dl refl rec] show ?thesis .
  next
    case False
    with "1.prems" have "h' = dealer"
      by (subst (asm) dealer_loop.simps) auto
    with False show ?thesis by simp
  qed
qed

text \<open>
  C1 (the code departs from the claim). The claim: the dealer draws while the value is
  below 17, or equals 17 with an ace still counted as 11, and never stands on a soft 17.
  The dealer holds ace and five (16) and draws an ace: the hand is now worth 17 with one
  ace counted as 11 and one as 1, a soft 17. \<^verbatim>\<open>play_dealer\<close> stops there and returns 17 with
  the single card drawn, whatever the shuffle; the ten that follows stays in the shoe.
\<close>

theorem dealer_stands_on_soft_17:
  "play_dealer sh [Card Spades RA, Card Clubs R5]
       (shoe_dealing [Card Hearts RA, Card Diamonds R10]) =
     Inr ((''A-5-A'', 17, [Card Hearts RA]), shoe_dealing [Card Diamonds R10]) \<and>
   get_value [Card Spades RA, Card Clubs R5, Card Hearts RA] = 17 \<and>
   soft_spec [Card Spades RA, Card Clubs R5, Card Hearts RA]"
  by (simp add: hand_eval deck_eval play_dealer_def dealer_loop.simps)

section \<open>The blackjack check\<close>



section \<open>The bet spread of the card counter\<close>

text \<open>
  C9. In a round of the driver under the card-counter strategy, let \<open>tc\<close> be the true count
  the driver computes (the running count, after the reset of an empty shoe if there is one,
  divided by the larger of 1 and the number of cards in the shoe over 52). The bet recorded
  for the round, which is the bet \<^verbatim>\<open>play_round\<close> was given, is 10 when \<open>tc < 1\<close>, 25 when
  \<open>tc = 2\<close>, 50 when \<open>tc = 3\<close>, 100 when \<open>tc \<ge> 4\<close>, and 10 for every other value: all
  of the interval from 1 up to 2 and the values strictly between 2, 3 and 4.
\<close>

theorem card_counter_bet_spread:
  assumes "sim_round sh Strategy_Card_Counter bs base_bet reshuffle args s = Inr s'"
    and "tc = driver_true_count
           (if length (cards (sim_deck s)) = 0 then 0 else running_count s)
           (if length (cards (sim_deck s)) = 0 then shuffle sh (build (sim_deck s)) else sim_deck s)"
  shows "\<exists>g. game_results s' = game_results s @ [g] \<and>
           (tc < 1 \<longrightarrow> bet g = 10) \<and>
           (tc = 2 \<longrightarrow> bet g = 25) \<and>
           (tc = 3 \<longrightarrow> bet g = 50) \<and>
           (4 \<le> tc \<longrightarrow> bet g = 100) \<and>
           (1 \<le> tc \<and> tc < 4 \<and> tc \<noteq> 2 \<and> tc \<noteq> 3 \<longrightarrow> bet g = 10)"
proof -
  let ?d = "if length (cards (sim_deck s)) = 0 then shuffle sh (build (sim_deck s)) else sim_deck s"
  let ?rc = "if length (cards (sim_deck s)) = 0 then 0 else running_count s"
  have prep: "prepare_round sh Strategy_Card_Counter bs base_bet reshuffle s =
      (?d, ?rc, counter_bet tc, current_bet s)"
    using assms(2) by (simp add: prepare_round_def)
  from assms(1) obtain res d' where
    "game_results s' = game_results s @ [\<lparr>round = res, bet = counter_bet tc\<rparr>]"
    unfolding sim_round_def prep by (auto split: sum.splits)
  then show ?thesis
    by (auto simp: counter_bet_def)
qed

theorem card_counter_bet_spread_witness:
  "(\<exists>s' g. sim_round sh_rev Strategy_Card_Counter Betting_Flat 10 True no_args
        (counting_state 4 [Card Hearts RA, Card Clubs RK, Card Hearts RQ, Card Clubs RJ]) = Inr s' \<and>
      game_results s' = [g] \<and> bet g = 100) \<and>
   (\<exists>s' g. sim_round sh_rev Strategy_Card_Counter Betting_Flat 10 True no_args
        (counting_state 1 [Card Hearts RA, Card Clubs RK, Card Hearts RQ, Card Clubs R2,
           Card Diamonds R3]) = Inr s' \<and>
      game_results s' = [g] \<and> bet g = 10)"
proof -
  let ?s4 = "counting_state 4 [Card Hearts RA, Card Clubs RK, Card Hearts RQ, Card Clubs RJ]"
  let ?s1 = "counting_state 1 [Card Hearts RA, Card Clubs RK, Card Hearts RQ, Card Clubs R2,
           Card Diamonds R3]"
  have tc4: "(4 :: rat) = driver_true_count
           (if length (cards (sim_deck ?s4)) = 0 then 0 else running_count ?s4)
           (if length (cards (sim_deck ?s4)) = 0 then shuffle sh_rev (build (sim_deck ?s4))
            else sim_deck ?s4)"
    by (simp add: counting_state_def shoe_dealing_def driver_true_count_def)
  have tc1: "(1 :: rat) = driver_true_count
           (if length (cards (sim_deck ?s1)) = 0 then 0 else running_count ?s1)
           (if length (cards (sim_deck ?s1)) = 0 then shuffle sh_rev (build (sim_deck ?s1))
            else sim_deck ?s1)"
    by (simp add: counting_state_def shoe_dealing_def driver_true_count_def)
  obtain s4' where r4: "sim_round sh_rev Strategy_Card_Counter Betting_Flat 10 True no_args ?s4 = Inr s4'"
    by (simp add: counting_state_def hand_eval deck_eval strategy_eval round_eval sim_eval)
  obtain s1' where r1: "sim_round sh_rev Strategy_Card_Counter Betting_Flat 10 True no_args ?s1 = Inr s1'"
    by (simp add: counting_state_def hand_eval deck_eval strategy_eval round_eval sim_eval)
  from card_counter_bet_spread [OF r4 tc4] obtain g4 where
    "game_results s4' = game_results ?s4 @ [g4]" "bet g4 = 100" by auto
  moreover from card_counter_bet_spread [OF r1 tc1] obtain g1 where
    "game_results s1' = game_results ?s1 @ [g1]" "bet g1 = 10" by auto
  ultimately show ?thesis using r4 r1
    by (auto simp: counting_state_def)
qed

section \<open>The result tag\<close>

text \<open>
  C10. In a round in which neither hand is a blackjack, the result tag is decided by the
  sign of the round's profit alone: win exactly when the profit is positive, loss exactly
  when it is negative, push exactly when it is zero; and the profit is the total that
  \<^verbatim>\<open>play_single_hand\<close> returns for the player's hand, which after a split is the sum
  of the two hands' profits. The witness is a split round whose hands lose 10 and win 10:
  it is tagged push.
\<close>

theorem result_tag_by_profit_sign:
  assumes "initial_deal sh d = Inr (ph, dh, d4)"
    and "\<not> is_blackjack ph" and "\<not> is_blackjack dh"
    and "play_round sh f b bs rc args d = Inr (r, d')"
  shows "(result r = Win \<longleftrightarrow> profit r > 0) \<and>
         (result r = Loss \<longleftrightarrow> profit r < 0) \<and>
         (result r = Push \<longleftrightarrow> profit r = 0) \<and>
         (\<exists>player_final prof ph' st'.
            play_single_hand sh f args dh ph b True True (d4, ph @ dh) =
              Inr ((player_final, prof), ph', st') \<and> profit r = of_int prof)"
  using assms by (auto simp: play_round_def split: sum.splits if_splits)

theorem result_tag_by_profit_sign_witness:
  "\<exists>r d'. play_round sh_rev strategy_basic 10 None 0 no_args split_shoe = Inr (r, d') \<and>
     player_hand r = ''8-10|8-10'' \<and> profit r = 0 \<and> result r = Push"
proof -
  have dl: "initial_deal sh_rev split_shoe =
      Inr ([Card Hearts R8, Card Spades R8], [Card Clubs R10, Card Clubs R6],
           shoe_dealing [Card Hearts R10, Card Diamonds R10, Card Hearts R5, Card Spades R10])"
    by (simp add: split_shoe_def initial_deal_def deck_eval add_card_def)
  have nb: "\<not> is_blackjack [Card Hearts R8, Card Spades R8]"
    "\<not> is_blackjack [Card Clubs R10, Card Clubs R6]"
    by (simp_all add: hand_eval)
  obtain r d' where run: "play_round sh_rev strategy_basic 10 None 0 no_args split_shoe = Inr (r, d')"
    and ph: "player_hand r = ''8-10|8-10''" and pr: "profit r = 0"
    by (simp add: split_shoe_def hand_eval deck_eval strategy_eval round_eval)
  from result_tag_by_profit_sign [OF dl nb run] pr have "result r = Push" by simp
  with run ph pr show ?thesis by blast
qed

section \<open>The dealer's turn in a split round\<close>

text \<open>
  C3 (the code departs from the claim). The claim: the dealer's hand is played out at most
  once in a round, and both hands of a split are compared with that one final value. In
  the round below the player splits eights against the dealer's ten and six; each eight
  gets a ten and stands on 18. \<^verbatim>\<open>play_single_hand\<close> runs \<^verbatim>\<open>play_dealer\<close> once for each
  hand, each time from the dealer's two initial cards: for the first hand the dealer draws
  the five and makes 21, so that hand loses 10; for the second the dealer draws the ten and
  busts with 26, so that hand wins 10. Two equal hands of 18 are settled against two
  different dealer values, the round's profit is 0, and \<^verbatim>\<open>cards_seen\<close> holds both draws.
\<close>

theorem split_round_plays_dealer_twice:
  "play_round sh strategy_basic 10 None 0 no_args split_shoe =
     Inr (\<lparr>player_hand = ''8-10|8-10'', player_final_value = 16,
           dealer_hand = ''10-6'', dealer_final_value = 16, result = Push, profit = 0,
           cards_seen = [Card Hearts R8, Card Spades R8, Card Clubs R10, Card Clubs R6,
             Card Hearts R10, Card Diamonds R10, Card Hearts R5, Card Spades R10]\<rparr>,
          shoe_dealing []) \<and>
   play_single_hand sh strategy_basic no_args [Card Clubs R10, Card Clubs R6]
       [Card Hearts R8, Card Hearts R10] 10 True False
       (shoe_dealing [Card Hearts R5, Card Spades R10], []) =
     Inr ((''8-10'', - 10), [Card Hearts R8, Card Hearts R10],
          (shoe_dealing [Card Spades R10], [Card Hearts R5])) \<and>
   play_single_hand sh strategy_basic no_args [Card Clubs R10, Card Clubs R6]
       [Card Spades R8, Card Diamonds R10] 10 True False
       (shoe_dealing [Card Spades R10], []) =
     Inr ((''8-10'', 10), [Card Spades R8, Card Diamonds R10],
          (shoe_dealing [], [Card Spades R10])) \<and>
   play_dealer sh [Card Clubs R10, Card Clubs R6] (shoe_dealing [Card Hearts R5, Card Spades R10]) =
     Inr ((''10-6-5'', 21, [Card Hearts R5]), shoe_dealing [Card Spades R10]) \<and>
   play_dealer sh [Card Clubs R10, Card Clubs R6] (shoe_dealing [Card Spades R10]) =
     Inr ((''10-6-10'', 26, [Card Spades R10]), shoe_dealing [])"
  by (simp add: split_shoe_def hand_eval deck_eval strategy_eval round_eval)

section \<open>The dealer's fields of the record\<close>

text \<open>
  Whatever the round, the record's dealer string and dealer value are those of the two
  cards the dealer was dealt: \<^verbatim>\<open>play_dealer\<close> draws on a copy.
\<close>

lemma play_round_reports_initial_dealer_hand:
  assumes "initial_deal sh d = Inr (ph, dh, d4)"
    and "play_round sh f b bs rc args d = Inr (r, d')"
  shows "dealer_hand r = hand_str dh \<and> dealer_final_value r = get_value dh"
  using assms by (auto simp: play_round_def Let_def split: sum.splits if_splits)

lemma initial_deal_two_cards:
  "initial_deal sh d = Inr (ph, dh, d4) \<Longrightarrow> length ph = 2 \<and> length dh = 2"
  by (auto simp: initial_deal_def add_card_def split: sum.splits)

text \<open>
  C6 (the code departs from the claim). The claim: in a round settled by comparison the
  record's dealer string and \<^verbatim>\<open>dealer_final_value\<close> describe the dealer's completed hand.
  Below the player stands on 19 and the dealer, holding ten and six, draws a five and
  makes 21: the round is a loss, and the record gives the dealer's hand as \<^verbatim>\<open>10-6\<close> with the
  value 16, which is neither at least 17 nor a bust.
\<close>

theorem record_keeps_initial_dealer_hand:
  "play_round sh strategy_basic 10 None 0 no_args
       (shoe_dealing [Card Hearts R10, Card Clubs R10, Card Diamonds R9, Card Clubs R6,
          Card Hearts R5]) =
     Inr (\<lparr>player_hand = ''10-9'', player_final_value = 19,
           dealer_hand = ''10-6'', dealer_final_value = 16, result = Loss, profit = - 10,
           cards_seen = [Card Hearts R10, Card Diamonds R9, Card Clubs R10, Card Clubs R6,
             Card Hearts R5]\<rparr>,
          shoe_dealing []) \<and>
   play_dealer sh [Card Clubs R10, Card Clubs R6] (shoe_dealing [Card Hearts R5]) =
     Inr ((''10-6-5'', 21, [Card Hearts R5]), shoe_dealing [])"
  by (simp add: hand_eval deck_eval strategy_eval round_eval)

section \<open>The count the card counter decides with\<close>

text \<open>
  Inside a round every call of the strategy gets keyword arguments without the key
  \<^verbatim>\<open>running_count\<close>, so the card counter's true count is 0 in every call, and the
  argument \<^verbatim>\<open>running_count\<close> of \<^verbatim>\<open>play_round\<close> changes nothing.
\<close>

lemma in_round_true_count_zero:
  "card_counter_true_count (call_kwargs args can_double can_split) = 0"
  by (simp add: card_counter_true_count_def call_kwargs_def get_default_def)

lemma play_round_ignores_running_count:
  "play_round sh f b bs rc args d = play_round sh f b bs rc' args d"
  by (simp add: play_round_def)

text \<open>
  C5 (the code departs from the claim). The claim: the true count the card counter uses
  for its deviations is the running count over the larger of 1 and the decks remaining.
  The driver holds the running count 3 with ten cards left, so the true count is 3 (and the
  bet 50); the player holds 12 against a two, where the table says stand from 3 up, and the
  strategy given the count 3 does say stand. In the round the strategy is called with
  no count, computes 0 and hits: the player's hand ends as \<^verbatim>\<open>10-2-5\<close>. The last two lines
  show the second gap: even given the count, the strategy has no \<^verbatim>\<open>decks_remaining\<close>
  argument (the driver never passes one) and divides by 1, so with two decks left and a
  count of 6 it would use 6 where the driver's true count is 3.
\<close>

theorem card_counter_decides_on_count_zero:
  "driver_true_count 3 (shoe_dealing twelve_vs_two) = 3 \<and>
   strategy_card_counter [Card Hearts R10, Card Clubs R2] (Card Diamonds R2)
     ((call_kwargs no_args None None)\<lparr>kw_running_count := Some 3\<rparr>) = Stand \<and>
   card_counter_true_count (call_kwargs no_args None None) = 0 \<and>
   strategy_card_counter [Card Hearts R10, Card Clubs R2] (Card Diamonds R2)
     (call_kwargs no_args None None) = Hit \<and>
   (\<exists>s' g. sim_round sh Strategy_Card_Counter Betting_Flat 10 True no_args
        (counting_state 3 twelve_vs_two) = Inr s' \<and>
      game_results s' = [g] \<and> bet g = 50 \<and> player_hand (round g) = ''10-2-5'') \<and>
   card_counter_true_count ((call_kwargs no_args None None)\<lparr>kw_running_count := Some 6\<rparr>) = 6 \<and>
   driver_true_count 6 (shoe_dealing (one_deck @ one_deck)) = 3"
  by (simp add: twelve_vs_two_def counting_state_def hand_eval deck_eval strategy_eval round_eval
        sim_eval full_shoe_def one_deck_def SUITS_def RANKS_def)

text \<open>
  C8 (the code departs from the claim in its last part). The claim ends: the count used
  for decisions within the round is the count before the round. The driver holds the
  count \<open>-5\<close>; the player holds 16 against a ten, where the table says stand only from 0
  up, and the strategy given \<open>-5\<close> says hit. In the round the strategy is called with no
  count, computes 0 and stands: the player's hand ends as \<^verbatim>\<open>10-6\<close>. The first two parts
  of the claim hold and are proved below (\<open>play_round_dealt\<close>, \<open>sim_round_counts_cards_seen\<close>).
\<close>

theorem decision_ignores_pre_round_count:
  "driver_true_count (- 5) (shoe_dealing sixteen_vs_ten) = - 5 \<and>
   strategy_card_counter [Card Hearts R10, Card Clubs R6] (Card Diamonds R10)
     ((call_kwargs no_args None None)\<lparr>kw_running_count := Some (- 5)\<rparr>) = Hit \<and>
   strategy_card_counter [Card Hearts R10, Card Clubs R6] (Card Diamonds R10)
     (call_kwargs no_args None None) = Stand \<and>
   (\<exists>s' g. sim_round sh Strategy_Card_Counter Betting_Flat 10 True no_args
        (counting_state (- 5) sixteen_vs_ten) = Inr s' \<and>
      game_results s' = [g] \<and> player_hand (round g) = ''10-6'' \<and>
      cards_seen (round g) = [Card Hearts R10, Card Clubs R6, Card Diamonds R10, Card Spades R7] \<and>
      running_count s' = - 6)"
  by (simp add: sixteen_vs_ten_def counting_state_def hand_eval deck_eval strategy_eval round_eval
        sim_eval)

section \<open>The cards a round deals\<close>

text \<open>
  \<open>deal_seq sh n d\<close> calls \<^verbatim>\<open>deal\<close> \<open>n\<close> times in a row, and \<open>dealt sh d cs d'\<close> says that
  dealing \<open>length cs\<close> cards from the shoe \<open>d\<close> returns the cards \<open>cs\<close>, in this order, and
  leaves the shoe \<open>d'\<close>.
\<close>

fun deal_seq :: "shuffle_fn \<Rightarrow> nat \<Rightarrow> deck \<Rightarrow> error + (card list \<times> deck)" where
  "deal_seq sh 0 d = Inr ([], d)"
| "deal_seq sh (Suc n) d =
     (case deal sh d of
        Inl e \<Rightarrow> Inl e
      | Inr (c, d1) \<Rightarrow>
          (case deal_seq sh n d1 of
             Inl e \<Rightarrow> Inl e
           | Inr (cs, d') \<Rightarrow> Inr (c # cs, d')))"

definition dealt :: "shuffle_fn \<Rightarrow> deck \<Rightarrow> card list \<Rightarrow> deck \<Rightarrow> bool" where
  "dealt sh d cs d' \<longleftrightarrow> deal_seq sh (length cs) d = Inr (cs, d')"

lemma dealt_nil: "dealt sh d [] d"
  by (simp add: dealt_def)

lemma dealt_cons: "deal sh d = Inr (c, d1) \<Longrightarrow> dealt sh d1 cs d' \<Longrightarrow> dealt sh d (c # cs) d'"
  by (simp add: dealt_def)

lemma dealt_one: "deal sh d = Inr (c, d') \<Longrightarrow> dealt sh d [c] d'"
  by (simp add: dealt_def)

lemma dealt_append: "dealt sh d xs d1 \<Longrightarrow> dealt sh d1 ys d' \<Longrightarrow> dealt sh d (xs @ ys) d'"
proof (induction xs arbitrary: d)
  case Nil
  then show ?case by (simp add: dealt_def)
next
  case (Cons x xs)
  from Cons.prems(1) obtain d2 where dl: "deal sh d = Inr (x, d2)" and rest: "dealt sh d2 xs d1"
    by (auto simp: dealt_def split: sum.splits)
  from Cons.IH [OF rest Cons.prems(2)] have "dealt sh d2 (xs @ ys) d'" .
  with dl show ?case by (simp add: dealt_cons)
qed

lemma dealer_loop_dealt:
  "dealer_loop sh h d dcs = Inr (h', dcs', d') \<Longrightarrow>
     \<exists>new. h' = h @ new \<and> dcs' = dcs @ new \<and> dealt sh d new d'"
proof (induction sh h d dcs rule: dealer_loop.induct)
  case (1 sh dealer d dealer_cards)
  note run = \<open>dealer_loop sh dealer d dealer_cards = Inr (h', dcs', d')\<close>
  show ?case
  proof (cases "get_value dealer < 17 \<or> (get_value dealer = 17 \<and> is_soft dealer)")
    case True
    with run obtain c d1 where dl: "deal sh d = Inr (c, d1)"
      and rec: "dealer_loop sh (add_card dealer c) d1 (dealer_cards @ [c]) = Inr (h', dcs', d')"
      by (subst (asm) dealer_loop.simps) (auto split: sum.splits)
    from "1.IH" [OF True dl refl rec] obtain new where
      n: "h' = add_card dealer c @ new" "dcs' = (dealer_cards @ [c]) @ new"
         "dealt sh d1 new d'" by blast
    from dl n(3) have "dealt sh d (c # new) d'" by (rule dealt_cons)
    with n(1,2) show ?thesis
      by (intro exI [of _ "c # new"]) (simp add: add_card_def)
  next
    case False
    with run have "h' = dealer \<and> dcs' = dealer_cards \<and> d' = d"
      by (subst (asm) dealer_loop.simps) simp
    then show ?thesis by (intro exI [of _ "[]"]) (simp add: dealt_nil)
  qed
qed

lemma foldl_add_card: "foldl add_card h xs = h @ xs"
  by (induction xs arbitrary: h) (simp_all add: add_card_def)

lemma play_dealer_dealt:
  assumes "play_dealer sh dh d = Inr ((str, val, dcs), d')"
  shows "dealt sh d dcs d' \<and> str = hand_str (dh @ dcs) \<and> val = get_value (dh @ dcs)"
proof -
  from assms obtain h' where
    run: "dealer_loop sh (foldl add_card [] dh) d [] = Inr (h', dcs, d')"
    and res: "str = hand_str h'" "val = get_value h'"
    by (auto simp: play_dealer_def split: sum.splits)
  from dealer_loop_dealt [OF run] res show ?thesis
    by (auto simp: foldl_add_card)
qed

lemma hit_loop_dealt:
  "hit_loop sh f args up h st = Inr (h', busted, st') \<Longrightarrow>
     \<exists>new. h' = h @ new \<and> snd st' = snd st @ new \<and> dealt sh (fst st) new (fst st')"
proof (induction sh f args up h st rule: hit_loop.induct)
  case (1 sh f args up hnd st)
  note run = \<open>hit_loop sh f args up hnd st = Inr (h', busted, st')\<close>
  show ?case
  proof (cases "f hnd up (call_kwargs args None None) = Hit")
    case True
    with run obtain c d1 where dl: "deal sh (fst st) = Inr (c, d1)"
      by (subst (asm) hit_loop.simps) (auto split: sum.splits)
    show ?thesis
    proof (cases "get_value (add_card hnd c) > 21")
      case bust: True
      with run True dl have "h' = add_card hnd c \<and> st' = (d1, snd st @ [c])"
        by (subst (asm) hit_loop.simps) simp
      with dealt_one [OF dl] show ?thesis
        by (intro exI [of _ "[c]"]) (simp add: add_card_def)
    next
      case False
      with run True dl have
        rec: "hit_loop sh f args up (add_card hnd c) (d1, snd st @ [c]) = Inr (h', busted, st')"
        by (subst (asm) hit_loop.simps) simp
      from "1.IH" [OF True dl refl False rec] obtain new where
        n: "h' = add_card hnd c @ new" "snd st' = (snd st @ [c]) @ new"
           "dealt sh d1 new (fst st')" by auto
      from dl n(3) have "dealt sh (fst st) (c # new) (fst st')" by (rule dealt_cons)
      with n(1,2) show ?thesis
        by (intro exI [of _ "c # new"]) (simp add: add_card_def)
    qed
  next
    case False
    with run have "h' = hnd \<and> st' = st"
      by (subst (asm) hit_loop.simps) simp
    then show ?thesis by (intro exI [of _ "[]"]) (simp add: dealt_nil)
  qed
qed

lemma dealers_turn_dealt:
  assumes "dealers_turn sh dh h stake st = Inr (res, h', st')"
  shows "\<exists>new. snd st' = snd st @ new \<and> dealt sh (fst st) new (fst st')"
proof -
  from assms obtain str val dcs d' where
    pd: "play_dealer sh dh (fst st) = Inr ((str, val, dcs), d')"
    and st': "st' = (d', snd st @ dcs)"
    by (auto simp: dealers_turn_def split: sum.splits)
  from play_dealer_dealt [OF pd] st' show ?thesis by auto
qed

lemma play_hand_no_split_dealt:
  assumes run: "play_single_hand sh f args dh h b ad False st = Inr (res, h', st')"
  shows "\<exists>new. snd st' = snd st @ new \<and> dealt sh (fst st) new (fst st')"
proof (cases "ad \<and> length h = 2 \<and> f h (dh ! 0) (call_kwargs args (Some True) None) = Double")
  case True
  with run obtain c d1 where dl: "deal sh (fst st) = Inr (c, d1)"
    by (subst (asm) play_single_hand.simps) (auto split: sum.splits)
  show ?thesis
  proof (cases "get_value (add_card h c) > 21")
    case bust: True
    with run True dl have "st' = (d1, snd st @ [c])"
      by (subst (asm) play_single_hand.simps) simp
    with dealt_one [OF dl] show ?thesis by (intro exI [of _ "[c]"]) simp
  next
    case False
    with run True dl have
      "dealers_turn sh dh (add_card h c) (2 * b) (d1, snd st @ [c]) = Inr (res, h', st')"
      by (subst (asm) play_single_hand.simps) simp
    from dealers_turn_dealt [OF this] obtain new where
      n: "snd st' = (snd st @ [c]) @ new" "dealt sh d1 new (fst st')" by auto
    from dl n(2) have "dealt sh (fst st) (c # new) (fst st')" by (rule dealt_cons)
    with n(1) show ?thesis by (intro exI [of _ "c # new"]) simp
  qed
next
  case False
  with run obtain hnd' busted st1 where
    hl: "hit_loop sh f args (dh ! 0) h st = Inr (hnd', busted, st1)"
    and rest: "if busted then st' = st1 else dealers_turn sh dh hnd' b st1 = Inr (res, h', st')"
    by (subst (asm) play_single_hand.simps) (auto split: sum.splits if_splits)
  from hit_loop_dealt [OF hl] obtain new1 where
    n1: "snd st1 = snd st @ new1" "dealt sh (fst st) new1 (fst st1)" by auto
  show ?thesis
  proof (cases busted)
    case True
    with rest n1 show ?thesis by auto
  next
    case False
    with rest have "dealers_turn sh dh hnd' b st1 = Inr (res, h', st')" by simp
    from dealers_turn_dealt [OF this] obtain new2 where
      n2: "snd st' = snd st1 @ new2" "dealt sh (fst st1) new2 (fst st')" by auto
    from n1(2) n2(2) have "dealt sh (fst st) (new1 @ new2) (fst st')"
      by (rule dealt_append)
    with n1(1) n2(1) show ?thesis by (intro exI [of _ "new1 @ new2"]) simp
  qed
qed

lemma play_single_hand_dealt:
  assumes run: "play_single_hand sh f args dh h b ad asp st = Inr (res, h', st')"
  shows "\<exists>new. snd st' = snd st @ new \<and> dealt sh (fst st) new (fst st')"
proof (cases "asp \<and> length h = 2 \<and> rank (h ! 0) = rank (h ! 1) \<and>
    f h (dh ! 0) (call_kwargs args None (Some True)) = Split")
  case True
  with run obtain c1 d1 c2 d2 r1 h1 st1 r2 h2 where
    dl1: "deal sh (fst st) = Inr (c1, d1)" and dl2: "deal sh d1 = Inr (c2, d2)"
    and p1: "play_single_hand sh f args dh (add_card (add_card [] (h ! 0)) c1) b True False
               (d2, snd st @ [c1, c2]) = Inr (r1, h1, st1)"
    and p2: "play_single_hand sh f args dh (add_card (add_card [] (h ! 1)) c2) b True False st1 =
               Inr (r2, h2, st')"
    by (subst (asm) play_single_hand.simps) (auto split: sum.splits)
  from play_hand_no_split_dealt [OF p1] obtain new1 where
    n1: "snd st1 = (snd st @ [c1, c2]) @ new1" "dealt sh d2 new1 (fst st1)" by auto
  from play_hand_no_split_dealt [OF p2] obtain new2 where
    n2: "snd st' = snd st1 @ new2" "dealt sh (fst st1) new2 (fst st')" by auto
  from n1(2) n2(2) have "dealt sh d2 (new1 @ new2) (fst st')" by (rule dealt_append)
  with dl2 have "dealt sh d1 (c2 # new1 @ new2) (fst st')" by (rule dealt_cons)
  with dl1 have "dealt sh (fst st) (c1 # c2 # new1 @ new2) (fst st')" by (rule dealt_cons)
  moreover from n1(1) n2(1) have "snd st' = snd st @ c1 # c2 # new1 @ new2" by simp
  ultimately show ?thesis by blast
next
  case False
  with run have "play_single_hand sh f args dh h b ad False st = Inr (res, h', st')"
    by (subst play_single_hand.simps, subst (asm) play_single_hand.simps) auto
  from play_hand_no_split_dealt [OF this] show ?thesis .
qed

lemma initial_deal_dealt:
  assumes "initial_deal sh d = Inr (ph, dh, d4)"
  shows "\<exists>c1 c2 c3 c4. ph = [c1, c3] \<and> dh = [c2, c4] \<and> dealt sh d [c1, c2, c3, c4] d4"
proof -
  from assms obtain c1 d1 c2 d2 c3 d3 c4 where
    ds: "deal sh d = Inr (c1, d1)" "deal sh d1 = Inr (c2, d2)" "deal sh d2 = Inr (c3, d3)"
        "deal sh d3 = Inr (c4, d4)"
    and hs: "ph = [c1, c3]" "dh = [c2, c4]"
    by (auto simp: initial_deal_def add_card_def split: sum.splits)
  from ds have "dealt sh d [c1, c2, c3, c4] d4"
    by (simp add: dealt_def)
  with hs show ?thesis by blast
qed

text \<open>
  Every card dealt during a round is in \<^verbatim>\<open>cards_seen\<close>, and nothing else is: the shoe after
  the round is the shoe after exactly as many calls of \<^verbatim>\<open>deal\<close> as \<^verbatim>\<open>cards_seen\<close> has
  cards, and \<^verbatim>\<open>cards_seen\<close> lists the cards those calls returned, in the order dealt but for
  the first four (the player's two cards come before the dealer's two).
\<close>

lemma play_round_dealt:
  assumes run: "play_round sh f b bs rc args d = Inr (r, d')"
  shows "\<exists>c1 c2 c3 c4 rest.
           dealt sh d (c1 # c2 # c3 # c4 # rest) d' \<and> cards_seen r = c1 # c3 # c2 # c4 # rest"
proof -
  from run obtain ph dh d4 where dl: "initial_deal sh d = Inr (ph, dh, d4)"
    by (auto simp: play_round_def split: sum.splits)
  from initial_deal_dealt [OF dl] obtain c1 c2 c3 c4 where
    four: "ph = [c1, c3]" "dh = [c2, c4]" "dealt sh d [c1, c2, c3, c4] d4" by blast
  show ?thesis
  proof (cases "is_blackjack ph \<or> is_blackjack dh")
    case True
    with run dl have "cards_seen r = ph @ dh \<and> d' = d4"
      by (auto simp: play_round_def Let_def split: if_splits)
    with four show ?thesis by auto
  next
    case False
    with run dl obtain res ph' seen' where
      p: "play_single_hand sh f args dh ph b True True (d4, ph @ dh) = Inr (res, ph', (d', seen'))"
      and cs: "cards_seen r = seen'"
      by (auto simp: play_round_def Let_def split: sum.splits if_splits)
    from play_single_hand_dealt [OF p] obtain new where
      n: "seen' = (ph @ dh) @ new" "dealt sh d4 new d'" by auto
    from four(3) n(2) have "dealt sh d ([c1, c2, c3, c4] @ new) d'" by (rule dealt_append)
    with n(1) cs four(1,2) show ?thesis by auto
  qed
qed

section \<open>The running count and the shoe\<close>


text \<open>
  The increment \<^verbatim>\<open>update_count\<close> adds for a card, and the count of a list of cards: the
  driver's loop \<^verbatim>\<open>for card in cards: running_count = update_count(running_count, card)\<close>
  started at zero.
\<close>

definition card_tag :: "card \<Rightarrow> int" where
  "card_tag c = update_count 0 c"


lemma card_tag_values:
  "card_tag c = (if rank c \<in> {R2, R3, R4, R5, R6} then 1
                 else if rank c \<in> {R10, RJ, RQ, RK, RA} then - 1 else 0)"
  by (simp add: card_tag_def update_count_def)

lemma update_count_tag: "update_count rc c = rc + card_tag c"
  by (simp add: update_count_def card_tag_def)

lemma foldl_update_count: "foldl update_count rc cs = rc + sum_list (map card_tag cs)"
  by (induction cs arbitrary: rc) (simp_all add: update_count_tag [of _ _])










text \<open>
  The first two parts of C8, for every strategy and every shuffle: the cards of the round's
  \<^verbatim>\<open>cards_seen\<close> are the cards the round dealt, and the running count after the round is
  the count the round started with (after the driver's reset, if it made one) plus the sum
  of the increments of those cards.
\<close>

lemma sim_round_counts_cards_seen:
  assumes run: "sim_round sh ps bs base_bet reshuffle args s = Inr s'"
    and prep: "prepare_round sh ps bs base_bet reshuffle s = (d, rc, b, cb)"
  shows "\<exists>g c1 c2 c3 c4 rest.
           game_results s' = game_results s @ [g] \<and>
           dealt sh d (c1 # c2 # c3 # c4 # rest) (sim_deck s') \<and>
           cards_seen (round g) = c1 # c3 # c2 # c4 # rest \<and>
           running_count s' = rc + sum_list (map card_tag (cards_seen (round g)))"
proof -
  from run prep obtain res d' where
    pr: "play_round sh (strategy_fn ps) b (Some bs) rc args d = Inr (res, d')"
    and s': "sim_deck s' = d'" "running_count s' = foldl update_count rc (cards_seen res)"
      "game_results s' = game_results s @ [\<lparr>round = res, bet = b\<rparr>]"
    by (auto simp: sim_round_def split: sum.splits)
  from play_round_dealt [OF pr] s' show ?thesis
    by (auto simp: foldl_update_count)
qed







section \<open>A run in which the shoe runs out in the middle of a round\<close>

















end
